theory Spec2Isabelle
  imports Complex_Main
begin

unbundle bit_operations_syntax

section \<open>Errors and Python dictionaries\<close>

text \<open>
  Every \<open>raise\<close> of the modelled code is a value of this type. The first four are the
  \<open>ValueError\<close>s and the \<open>RuntimeError\<close> of the engine and of the action codec, told apart
  by their message; the next three are the \<open>ValueError\<close>s of \<open>start_postflop_state\<close>,
  \<open>pad_board\<close> and the cache constructor; \<open>CardIdRange\<close> is the \<open>ValueError\<close> of
  \<open>id_to_card\<close>; the others are raised by the Python runtime itself.
\<close>

datatype error =
    IllegalAction
  | EncodeRange
  | ReRaise
  | Unhandled
  | PotTooLarge
  | BoardTooLong
  | CapacityNotPositive
  | CardIdRange
  | KeyError
  | TypeError
  | MathDomainError
  | AssertionError

definition ebind :: "error + 'a \<Rightarrow> ('a \<Rightarrow> error + 'b) \<Rightarrow> error + 'b" where
  "ebind m f = (case m of Inl e \<Rightarrow> Inl e | Inr x \<Rightarrow> f x)"

text \<open>
  The values stored in \<open>GameState.meta\<close> (a \<open>Dict[str, object]\<close>): the engine stores
  booleans and integers there; \<open>MNone\<close> is Python's \<open>None\<close>.
\<close>

datatype meta_val = MNone | MBool bool | MInt int

fun truthy :: "meta_val \<Rightarrow> bool" where
  "truthy MNone = False"
| "truthy (MBool b) = b"
| "truthy (MInt i) = (i \<noteq> 0)"


text \<open>A dictionary in insertion order: \<open>d[k] = v\<close> overwrites in place or appends.\<close>

fun dict_set :: "('k \<times> 'v) list \<Rightarrow> 'k \<Rightarrow> 'v \<Rightarrow> ('k \<times> 'v) list" where
  "dict_set [] k v = [(k, v)]"
| "dict_set ((k', v') # xs) k v =
     (if k' = k then (k, v) # xs else (k', v') # dict_set xs k v)"

definition dict_get :: "('k \<times> 'v) list \<Rightarrow> 'k \<Rightarrow> 'v \<Rightarrow> 'v" where
  "dict_get d k dflt = (case map_of d k of None \<Rightarrow> dflt | Some v \<Rightarrow> v)"

type_synonym meta_dict = "(string \<times> meta_val) list"

section \<open>Enumerations of \<open>helpers/abstraction.py\<close>\<close>

text \<open>\<open>Street\<close>, \<open>Act\<close> and \<open>Player\<close> are \<open>IntEnum\<close>s: plain integers everywhere they are used.\<close>

definition PREFLOP :: int where "PREFLOP = 0"
definition FLOP :: int where "FLOP = 1"
definition TURN :: int where "TURN = 2"
definition RIVER :: int where "RIVER = 3"

definition FOLD :: int where "FOLD = 0"
definition CHECK :: int where "CHECK = 1"
definition CALL :: int where "CALL = 2"
definition BET :: int where "BET = 3"
definition RAISE :: int where "RAISE = 4"
definition ALLIN :: int where "ALLIN = 5"

definition HERO :: int where "HERO = 0"
definition VILLAIN :: int where "VILLAIN = 1"

section \<open>The action codec\<close>

datatype Action = Action (a_street: int) (a_player: int) (a_act: int) (a_amount: int)

text \<open>
  \<open>Action.encode\<close>: bits \<open>[street:2][player:6][act:3][amount:21]\<close>. Python's bitwise and, or,
  left shift and right shift on unbounded integers are \<open>AND\<close>, \<open>OR\<close>, \<open>push_bit\<close> and
  \<open>drop_bit\<close> on \<open>int\<close>.
\<close>

definition encode :: "Action \<Rightarrow> error + int" where
  "encode a =
     (if a_amount a < 0 \<or> a_amount a \<ge> push_bit 21 1 then Inl EncodeRange
      else Inr (push_bit 30 (a_street a AND 3) OR push_bit 24 (a_player a AND 63)
                OR push_bit 21 (a_act a AND 7) OR (a_amount a AND (push_bit 21 1 - 1))))"

definition decode :: "int \<Rightarrow> Action" where
  "decode x = Action (drop_bit 30 x AND 3) (drop_bit 24 x AND 63)
                     (drop_bit 21 x AND 7) (x AND (push_bit 21 1 - 1))"

section \<open>\<open>GameState\<close> and \<open>PublicState\<close>\<close>

record GameState =
  board :: "int list"
  street :: int
  pot :: int
  hero_stack :: int
  villain_stack :: int
  to_act :: int
  action_history :: "int list"
  meta :: "meta_dict option"

text \<open>\<open>GameState.apply_action\<close>: append the encoded action and apply the deltas.\<close>

definition gs_apply_action :: "GameState \<Rightarrow> Action \<Rightarrow> int \<Rightarrow> int \<Rightarrow> int \<Rightarrow> error + GameState" where
  "gs_apply_action g action pot_delta hero_stack_delta villain_stack_delta =
     ebind (encode action) (\<lambda>enc.
       Inr (g\<lparr>pot := pot g + pot_delta,
              hero_stack := hero_stack g + hero_stack_delta,
              villain_stack := villain_stack g + villain_stack_delta,
              action_history := action_history g @ [enc]\<rparr>))"

definition pad_board :: "int list \<Rightarrow> error + int list" where
  "pad_board board_ids =
     (if length board_ids > 5 then Inl BoardTooLong
      else Inr (board_ids @ replicate (5 - length board_ids) (- 1)))"

record PublicState =
  gs :: GameState
  street_bet_open :: bool
  bet_by :: int
  bet_amount :: int
  raises_this_street :: int

section \<open>The betting engine, \<open>engine/simple_hu_postflop.py\<close>\<close>

text \<open>
  \<open>start_postflop_state\<close>. The hero hand and the flop arrive as card strings and are parsed
  into card ids by \<open>parse_cards\<close> and \<open>card_to_id\<close>; here the flop is taken as the list of
  ids already, and the private hand, which the function returns beside the state, is left out.
\<close>

definition start_postflop_state :: "int list \<Rightarrow> int \<Rightarrow> int \<Rightarrow> int \<Rightarrow> error + PublicState" where
  "start_postflop_state flop pot0 stacks_bb to_act0 =
     (let hero_invest = pot0 div 2;
          villain_invest = pot0 - hero_invest;
          hero_stack0 = stacks_bb - hero_invest;
          villain_stack0 = stacks_bb - villain_invest
      in if hero_stack0 < 0 \<or> villain_stack0 < 0 then Inl PotTooLarge
         else ebind (pad_board flop) (\<lambda>b.
           Inr \<lparr>gs = \<lparr>board = b, street = FLOP, pot = pot0,
                      hero_stack = hero_stack0, villain_stack = villain_stack0,
                      to_act = to_act0, action_history = [],
                      meta = Some [(''hero_start'', MInt stacks_bb),
                                   (''villain_start'', MInt stacks_bb),
                                   (''hero_invest'', MInt hero_invest),
                                   (''villain_invest'', MInt villain_invest)]\<rparr>,
                street_bet_open = False, bet_by = HERO, bet_amount = 0,
                raises_this_street = 0\<rparr>))"

definition is_terminal :: "PublicState \<Rightarrow> bool" where
  "is_terminal ps =
     (case meta (gs ps) of
        None \<Rightarrow> False
      | Some m \<Rightarrow> m \<noteq> [] \<and> truthy (dict_get m ''terminal'' (MBool False)))"

definition legal_actions :: "PublicState \<Rightarrow> int list" where
  "legal_actions ps =
     (if is_terminal ps then []
      else if \<not> street_bet_open ps then [CHECK, BET, ALLIN]
      else [CALL, FOLD, ALLIN] @ (if raises_this_street ps = 0 then [RAISE] else []))"

definition half_pot_bet_size :: "int \<Rightarrow> int" where
  "half_pot_bet_size p = max 1 (p div 2)"

definition replace_to_act :: "GameState \<Rightarrow> int \<Rightarrow> GameState" where
  "replace_to_act g t = g\<lparr>to_act := t\<rparr>"

definition meta_or_empty :: "GameState \<Rightarrow> meta_dict" where
  "meta_or_empty g = (case meta g of None \<Rightarrow> [] | Some m \<Rightarrow> m)"

definition with_terminal :: "GameState \<Rightarrow> int \<Rightarrow> GameState" where
  "with_terminal g winner =
     g\<lparr>meta := Some (dict_set (dict_set (meta_or_empty g) ''terminal'' (MBool True))
                               ''winner'' (MInt winner))\<rparr>"

definition advance_street :: "GameState \<Rightarrow> int \<Rightarrow> GameState" where
  "advance_street g next_to_act =
     (if street g \<ge> RIVER
      then g\<lparr>to_act := next_to_act,
              meta := Some (dict_set (dict_set (meta_or_empty g) ''showdown'' (MBool True))
                                     ''terminal'' (MBool True))\<rparr>
      else g\<lparr>street := street g + 1, to_act := next_to_act\<rparr>)"

text \<open>The helpers local to \<open>apply_action\<close>.\<close>

definition swap_player :: "int \<Rightarrow> int" where
  "swap_player x = (if x = HERO then VILLAIN else HERO)"

definition stack_of :: "GameState \<Rightarrow> int \<Rightarrow> int" where
  "stack_of g player = (if player = HERO then hero_stack g else villain_stack g)"

definition apply_put_in :: "GameState \<Rightarrow> int \<Rightarrow> int \<Rightarrow> int \<Rightarrow> error + GameState" where
  "apply_put_in g0 player amount a =
     gs_apply_action g0 (Action (street g0) player a amount) amount
       (if player = HERO then - amount else 0)
       (if player = VILLAIN then - amount else 0)"

text \<open>
  \<open>_should_shove_after_called\<close>. The source divides two Python integers (\<open>eff / pot_after\<close>, a
  correctly rounded float) and compares with \<open>0.5\<close>; the quotient is taken exactly here, which
  gives the same comparison for every pot below \<open>2^53\<close>. For a pot that is not positive
  the source takes the ratio to be infinite, which is not below \<open>0.5\<close>.
\<close>

definition should_shove_after_called :: "int \<Rightarrow> int \<Rightarrow> int \<Rightarrow> int \<Rightarrow> int \<Rightarrow> int \<Rightarrow> bool" where
  "should_shove_after_called pot_now hero_stack_now vill_stack_now aggressor agg_put_in caller_put_in =
     (let hero_after = hero_stack_now - (if aggressor = HERO then agg_put_in else caller_put_in);
          vill_after = vill_stack_now - (if aggressor = VILLAIN then agg_put_in else caller_put_in);
          pot_after = pot_now + agg_put_in + caller_put_in;
          eff = min hero_after vill_after
      in if pot_after \<le> 0 then False
         else (real_of_int eff / real_of_int pot_after < 1 / 2))"

definition closed_state :: "GameState \<Rightarrow> PublicState" where
  "closed_state g2 =
     \<lparr>gs = advance_street g2 HERO, street_bet_open = False, bet_by = HERO,
      bet_amount = 0, raises_this_street = 0\<rparr>"

definition apply_action :: "PublicState \<Rightarrow> int \<Rightarrow> error + PublicState" where
  "apply_action ps act0 =
     (let g = gs ps; p = to_act g in
      if act0 \<notin> set (legal_actions ps) then Inl IllegalAction
      else if \<not> street_bet_open ps then
        (if act0 = CHECK then
           ebind (gs_apply_action g (Action (street g) p CHECK 0) 0 0 0) (\<lambda>gs2.
             let hist = action_history gs2;
                 advanced =
                   (length hist \<ge> 2 \<and>
                    (let a1 = decode (hist ! (length hist - 1));
                         a2 = decode (hist ! (length hist - 2))
                     in a_act a1 = CHECK \<and> a_act a2 = CHECK
                        \<and> a_street a1 = a_street a2 \<and> a_street a2 = street g))
             in if advanced then Inr (closed_state gs2)
                else Inr \<lparr>gs = replace_to_act gs2 (swap_player p), street_bet_open = False,
                          bet_by = HERO, bet_amount = 0, raises_this_street = 0\<rparr>)
         else if act0 = BET \<or> act0 = ALLIN then
           (let size0 = (if act0 = BET then half_pot_bet_size (pot g) else stack_of g p);
                size1 = min size0 (stack_of g p);
                caller = swap_player p;
                call_amt = min size1 (stack_of g caller);
                shove = (act0 = BET \<and>
                         should_shove_after_called (pot g) (hero_stack g) (villain_stack g)
                           p size1 call_amt);
                size2 = (if shove then stack_of g p else size1);
                act1 = (if shove then ALLIN else act0)
            in ebind (apply_put_in g p size2 act1) (\<lambda>gs2.
                 Inr \<lparr>gs = replace_to_act gs2 (swap_player p), street_bet_open = True,
                      bet_by = p, bet_amount = size2, raises_this_street = 0\<rparr>))
         else Inl Unhandled)
      else
        (let to_call = bet_amount ps in
         if act0 = FOLD then
           ebind (gs_apply_action g (Action (street g) p FOLD 0) 0 0 0) (\<lambda>gs2.
             Inr \<lparr>gs = with_terminal gs2 (swap_player p), street_bet_open = True,
                  bet_by = bet_by ps, bet_amount = bet_amount ps,
                  raises_this_street = raises_this_street ps\<rparr>)
         else if act0 = CALL then
           (let call_amt = min to_call (stack_of g p)
            in ebind (apply_put_in g p call_amt CALL) (\<lambda>gs2. Inr (closed_state gs2)))
         else if act0 = ALLIN then
           (let allin_amt = stack_of g p in
            if allin_amt \<le> to_call then
              ebind (apply_put_in g p allin_amt CALL) (\<lambda>gs2. Inr (closed_state gs2))
            else
              ebind (apply_put_in g p allin_amt ALLIN) (\<lambda>gs2.
                Inr \<lparr>gs = replace_to_act gs2 (swap_player p), street_bet_open = True,
                     bet_by = p, bet_amount = allin_amt - to_call,
                     raises_this_street = 1\<rparr>))
         else if act0 = RAISE then
           (if raises_this_street ps \<noteq> 0 then Inl ReRaise
            else
              (let raise_to = min (3 * to_call) (stack_of g p);
                   caller = swap_player p;
                   caller_extra = min (max 0 (raise_to - to_call)) (stack_of g caller)
               in if should_shove_after_called (pot g) (hero_stack g) (villain_stack g)
                       p raise_to caller_extra
                  then
                    (let raise_to2 = stack_of g p in
                     if raise_to2 \<le> to_call then
                       (let call_amt = min to_call (stack_of g p)
                        in ebind (apply_put_in g p call_amt CALL) (\<lambda>gs2.
                             Inr (closed_state gs2)))
                     else
                       ebind (apply_put_in g p raise_to2 ALLIN) (\<lambda>gs2.
                         Inr \<lparr>gs = replace_to_act gs2 caller, street_bet_open = True,
                              bet_by = p, bet_amount = raise_to2 - to_call,
                              raises_this_street = 1\<rparr>))
                  else
                    ebind (apply_put_in g p raise_to RAISE) (\<lambda>gs2.
                      Inr \<lparr>gs = replace_to_act gs2 (swap_player p), street_bet_open = True,
                           bet_by = p, bet_amount = raise_to - to_call,
                           raises_this_street = 1\<rparr>)))
         else Inl Unhandled))"

section \<open>A concrete hand\<close>

text \<open>
  The state of the end-to-end scenario: board Kh 7d 2h (ids 45, 22, 1), pot 60, stacks 940
  each, hero to act, no bet open. It is what \<open>start_postflop_state\<close> returns for a pot of 60
  and starting stacks of 970.
\<close>

definition example_state :: PublicState where
  "example_state =
     \<lparr>gs = \<lparr>board = [45, 22, 1, - 1, - 1], street = 1, pot = 60,
             hero_stack = 940, villain_stack = 940, to_act = 0, action_history = [],
             meta = Some [(''hero_start'', MInt 970), (''villain_start'', MInt 970),
                          (''hero_invest'', MInt 30), (''villain_invest'', MInt 30)]\<rparr>,
      street_bet_open = False, bet_by = 0, bet_amount = 0, raises_this_street = 0\<rparr>"

section \<open>Predicates used to state the properties\<close>

text \<open>
  The action recorded last in the history is a CHECK made on the current street.
\<close>

definition prev_check_same_street :: "PublicState \<Rightarrow> bool" where
  "prev_check_same_street ps =
     (action_history (gs ps) \<noteq> [] \<and>
      (let prev = decode (last (action_history (gs ps)))
       in a_act prev = CHECK \<and> a_street prev = street (gs ps)))"

text \<open>
  What closing the street means for the state \<open>ps'\<close> that follows \<open>ps\<close>: the street number
  goes up by one, or, from the river on, stays and the terminal and showdown flags are set;
  no bet is open, no raise is counted, and the hero is first to act.
\<close>

definition street_closed :: "PublicState \<Rightarrow> PublicState \<Rightarrow> bool" where
  "street_closed ps ps' =
     ((if street (gs ps) \<ge> RIVER
       then street (gs ps') = street (gs ps) \<and> is_terminal ps'
            \<and> dict_get (meta_or_empty (gs ps')) ''showdown'' (MBool False) = MBool True
       else street (gs ps') = street (gs ps) + 1 \<and> meta (gs ps') = meta (gs ps))
      \<and> raises_this_street ps' = 0 \<and> \<not> street_bet_open ps' \<and> bet_amount ps' = 0
      \<and> to_act (gs ps') = HERO)"



text \<open>The example hand after the hero checks, and after the hero bets half the pot.\<close>

definition example_after_check :: PublicState where
  "example_after_check =
     \<lparr>gs = \<lparr>board = [45, 22, 1, - 1, - 1], street = 1, pot = 60,
             hero_stack = 940, villain_stack = 940, to_act = 1,
             action_history = [1075838976],
             meta = Some [(''hero_start'', MInt 970), (''villain_start'', MInt 970),
                          (''hero_invest'', MInt 30), (''villain_invest'', MInt 30)]\<rparr>,
      street_bet_open = False, bet_by = 0, bet_amount = 0, raises_this_street = 0\<rparr>"

definition example_after_bet :: PublicState where
  "example_after_bet =
     \<lparr>gs = \<lparr>board = [45, 22, 1, - 1, - 1], street = 1, pot = 90,
             hero_stack = 910, villain_stack = 940, to_act = 1,
             action_history = [1080033310],
             meta = Some [(''hero_start'', MInt 970), (''villain_start'', MInt 970),
                          (''hero_invest'', MInt 30), (''villain_invest'', MInt 30)]\<rparr>,
      street_bet_open = True, bet_by = 0, bet_amount = 30, raises_this_street = 0\<rparr>"



section \<open>Playing a hand and paying it out\<close>




text \<open>
  \<open>_terminal_result\<close> of \<open>scripts/selfplay_collect.py\<close>, the only place where the villain's
  payout and net are computed: on a tie the hero receives \<open>pot // 2\<close> and the villain the
  rest of the pot.
\<close>

record terminal_record =
  winner :: "int option"
  ended_by_fold :: bool
  hero_stack_final :: int
  vill_stack_final :: int
  hero_net :: int
  vill_net :: int







section \<open>The rollout cache, \<open>helpers/cache.py\<close>\<close>

text \<open>
  \<open>RolloutStats\<close>: a sample count and a running mean. The count starts at 0 and is only ever
  incremented, so it is a natural number; the mean is a Python float, taken here as a real
  number (the property about it is stated up to floating-point tolerance). \<open>update\<close>
  increments the count before it divides by it.
\<close>

record RolloutStats =
  n :: nat
  mean_ev :: real



text \<open>
  \<open>LRUTranspoTable\<close>: the \<open>OrderedDict\<close> is the list of its items in order, the entry at the
  head being the one \<open>popitem(last=False)\<close> removes. The statistics objects are shared by
  reference between the dictionary and the caller; here the dictionary holds their values and
  \<open>update\<close> writes the new value back under the key, if the key is still stored.
\<close>

record 'k LRUTranspoTable =
  capacity :: int
  od :: "('k \<times> RolloutStats) list"
  hits :: nat
  misses :: nat
  evictions :: nat

definition lru_init :: "int \<Rightarrow> error + 'k LRUTranspoTable" where
  "lru_init cap =
     (if cap \<le> 0 then Inl CapacityNotPositive
      else Inr \<lparr>capacity = cap, od = [], hits = 0, misses = 0, evictions = 0\<rparr>)"









text \<open>
  The state of a table that the constructor has built: a positive capacity, keys stored once,
  and no more keys than the capacity.
\<close>

definition table_ok :: "'k LRUTranspoTable \<Rightarrow> bool" where
  "table_ok t = (1 \<le> capacity t \<and> distinct (map fst (od t)) \<and> int (length (od t)) \<le> capacity t)"



section \<open>Bandit statistics and UCB selection, \<open>ai/infoset.py\<close>\<close>

text \<open>
  \<open>InfoNode\<close> (its field \<open>n\<close> is \<open>node_n\<close> here). The visit counts start at 0 and are only
  incremented: natural numbers. The cumulative returns are Python floats, taken as real
  numbers, with \<open>math.log\<close> and \<open>math.sqrt\<close> as \<open>ln\<close> and \<open>sqrt\<close>. The two dictionaries
  are partial maps; \<open>ensure_actions\<close> mutates the node, so the functions return the node.
\<close>

record InfoNode =
  node_n :: nat
  na :: "int \<rightharpoonup> nat"
  wa :: "int \<rightharpoonup> real"

definition new_node :: InfoNode where
  "new_node = \<lparr>node_n = 0, na = Map.empty, wa = Map.empty\<rparr>"

fun ensure_actions :: "InfoNode \<Rightarrow> int list \<Rightarrow> InfoNode" where
  "ensure_actions node [] = node"
| "ensure_actions node (a # acts) =
     ensure_actions
       (if na node a = None then node\<lparr>na := (na node)(a \<mapsto> 0), wa := (wa node)(a \<mapsto> 0)\<rparr>
        else node)
       acts"

text \<open>
  The second loop of \<open>ucb_select_action\<close>, carrying \<open>best_a\<close> and \<open>best_s\<close>. A missing key
  raises \<open>KeyError\<close>, \<open>math.sqrt\<close> of a negative number raises; the count of an action
  reached here is not 0, so the divisions do not fail.
\<close>

fun ucb_scan :: "InfoNode \<Rightarrow> real \<Rightarrow> real \<Rightarrow> int list \<Rightarrow> int option \<Rightarrow> real
    \<Rightarrow> error + (int option \<times> real)" where
  "ucb_scan node c logN [] best_a best_s = Inr (best_a, best_s)"
| "ucb_scan node c logN (a # acts) best_a best_s =
     (case wa node a of
        None \<Rightarrow> Inl KeyError
      | Some w \<Rightarrow>
          (case na node a of
             None \<Rightarrow> Inl KeyError
           | Some m \<Rightarrow>
               if logN / real m < 0 then Inl MathDomainError
               else
                 (let mean = w / real m;
                      bonus = c * sqrt (logN / real m);
                      s = mean + bonus
                  in if s > best_s then ucb_scan node c logN acts (Some a) s
                     else ucb_scan node c logN acts best_a best_s)))"

definition ucb_select_action :: "InfoNode \<Rightarrow> int list \<Rightarrow> real \<Rightarrow> error + (int \<times> InfoNode)" where
  "ucb_select_action node0 acts exploration_c =
     (let node = ensure_actions node0 acts
      in case find (\<lambda>a. na node a = Some 0) acts of
           Some a \<Rightarrow> Inr (a, node)
         | None \<Rightarrow>
             ebind (ucb_scan node exploration_c (ln (real (node_n node) + 1)) acts
                      None (- (10 ^ 100)))
               (\<lambda>(best_a, best_s).
                  case best_a of
                    None \<Rightarrow> Inl AssertionError
                  | Some a \<Rightarrow> Inr (a, node)))"

text \<open>
  The statistics update that follows a selection in \<open>ISMCTS._iterate\<close>:
  \<open>node.n += 1; node.na[a] += 1; node.wa[a] += v\<close>.
\<close>

definition record_visit :: "InfoNode \<Rightarrow> int \<Rightarrow> real \<Rightarrow> error + InfoNode" where
  "record_visit node a v =
     (case na node a of
        None \<Rightarrow> Inl KeyError
      | Some m \<Rightarrow>
          (case wa node a of
             None \<Rightarrow> Inl KeyError
           | Some w \<Rightarrow>
               Inr (node\<lparr>node_n := node_n node + 1, na := (na node)(a \<mapsto> m + 1),
                         wa := (wa node)(a \<mapsto> w + v)\<rparr>)))"

text \<open>
  Repeated selection, each followed by the update with the next sampled return.
\<close>

fun select_run :: "InfoNode \<Rightarrow> int list \<Rightarrow> real \<Rightarrow> real list \<Rightarrow> error + (int list \<times> InfoNode)" where
  "select_run node acts c [] = Inr ([], node)"
| "select_run node acts c (v # vs) =
     ebind (ucb_select_action node acts c) (\<lambda>(a, node1).
       ebind (record_visit node1 a v) (\<lambda>node2.
         ebind (select_run node2 acts c vs) (\<lambda>(chosen, node3).
           Inr (a # chosen, node3))))"

text \<open>
  The score of an action: mean return plus \<open>exploration_c\<close> times
  \<open>sqrt (ln (N + 1) / n_a)\<close>.
\<close>

definition ucb_score :: "InfoNode \<Rightarrow> real \<Rightarrow> int \<Rightarrow> real" where
  "ucb_score node c a =
     (case (wa node a, na node a) of
        (Some w, Some m) \<Rightarrow> w / real m + c * sqrt (ln (real (node_n node) + 1) / real m)
      | _ \<Rightarrow> 0)"

text \<open>
  Every action of the list has been visited (and has its return recorded); none has been
  visited (an action already in the node has both entries).
\<close>

definition all_visited :: "InfoNode \<Rightarrow> int list \<Rightarrow> bool" where
  "all_visited node acts =
     (\<forall>a \<in> set acts. (\<exists>m. na node a = Some m \<and> 0 < m) \<and> wa node a \<noteq> None)"

definition all_unvisited :: "InfoNode \<Rightarrow> int list \<Rightarrow> bool" where
  "all_unvisited node acts =
     (\<forall>a \<in> set acts. na node a = None \<or> (na node a = Some 0 \<and> wa node a \<noteq> None))"

text \<open>
  A node visited twice: action 1 once with return 5, action 3 once with return 2.
\<close>

definition example_node :: InfoNode where
  "example_node = \<lparr>node_n = 2, na = [1 \<mapsto> 1, 3 \<mapsto> 1], wa = [1 \<mapsto> 5, 3 \<mapsto> 2]\<rparr>"

section \<open>Opponent range from the history, \<open>ai/belief.py\<close>\<close>



















section \<open>Properties\<close>

lemmas enum_defs =
  PREFLOP_def FLOP_def TURN_def RIVER_def
  FOLD_def CHECK_def CALL_def BET_def RAISE_def ALLIN_def
  HERO_def VILLAIN_def

subsection \<open>The action codec\<close>

lemma pack_unpack:
  fixes s p a m :: int
  defines "x \<equiv> push_bit 30 (take_bit 2 s) OR push_bit 24 (take_bit 6 p)
                OR push_bit 21 (take_bit 3 a) OR take_bit 21 m"
  shows "take_bit 2 (drop_bit 30 x) = take_bit 2 s"
    and "take_bit 6 (drop_bit 24 x) = take_bit 6 p"
    and "take_bit 3 (drop_bit 21 x) = take_bit 3 a"
    and "take_bit 21 x = take_bit 21 m"
  unfolding x_def
  by (rule bit_eqI; auto simp add: bit_simps)+

lemma and_masks:
  "(x::int) AND 3 = take_bit 2 x" "(x::int) AND 63 = take_bit 6 x"
  "(x::int) AND 7 = take_bit 3 x" "(x::int) AND (push_bit 21 1 - 1) = take_bit 21 x"
  by (simp_all add: take_bit_eq_mask mask_eq_exp_minus_1 push_bit_eq_mult)

lemma encode_Inr:
  "0 \<le> a_amount a \<Longrightarrow> a_amount a < 2097152 \<Longrightarrow>
   encode a = Inr (push_bit 30 (take_bit 2 (a_street a)) OR push_bit 24 (take_bit 6 (a_player a))
                OR push_bit 21 (take_bit 3 (a_act a)) OR take_bit 21 (a_amount a))"
  unfolding encode_def and_masks by simp

lemma encode_Inl:
  "a_amount a < 0 \<or> 2097152 \<le> a_amount a \<Longrightarrow> encode a = Inl EncodeRange"
  by (auto simp add: encode_def push_bit_eq_mult)

lemma decode_encode_gen:
  assumes "encode a = Inr x"
  shows "decode x = Action (take_bit 2 (a_street a)) (take_bit 6 (a_player a))
                           (take_bit 3 (a_act a)) (a_amount a)"
proof -
  have r: "0 \<le> a_amount a" "a_amount a < 2097152"
    using assms encode_Inl [of a] by (auto simp: not_le [symmetric])
  have x: "x = push_bit 30 (take_bit 2 (a_street a)) OR push_bit 24 (take_bit 6 (a_player a))
                OR push_bit 21 (take_bit 3 (a_act a)) OR take_bit 21 (a_amount a)"
    using assms encode_Inr [OF r] by simp
  have m: "take_bit 21 (a_amount a) = a_amount a"
    using r by (simp add: take_bit_int_eq_self)
  show ?thesis
    unfolding decode_def and_masks x pack_unpack by (simp add: m)
qed

text \<open>
  C9. An action whose fields fit their bit widths (street 0..3, player 0..63, act 0..7,
  amount 0..2097151) is encoded without error and decoded back to itself; encoding any action
  fails exactly when its amount is negative or at least \<open>2^21\<close>, and then with the range error.
\<close>

theorem action_codec_roundtrip:
  "(0 \<le> s \<and> s \<le> 3 \<and> 0 \<le> p \<and> p \<le> 63 \<and> 0 \<le> a \<and> a \<le> 7 \<and> 0 \<le> m \<and> m \<le> 2097151
      \<longrightarrow> (\<exists>x. encode (Action s p a m) = Inr x \<and> decode x = Action s p a m))
   \<and> ((\<exists>e. encode b = Inl e) \<longleftrightarrow> (a_amount b < 0 \<or> a_amount b \<ge> 2 ^ 21))
   \<and> (\<forall>e. encode b = Inl e \<longrightarrow> e = EncodeRange)"
proof (intro conjI impI allI)
  assume h: "0 \<le> s \<and> s \<le> 3 \<and> 0 \<le> p \<and> p \<le> 63 \<and> 0 \<le> a \<and> a \<le> 7 \<and> 0 \<le> m \<and> m \<le> 2097151"
  then have e: "encode (Action s p a m) =
      Inr (push_bit 30 (take_bit 2 s) OR push_bit 24 (take_bit 6 p)
           OR push_bit 21 (take_bit 3 a) OR take_bit 21 m)"
    using encode_Inr [of "Action s p a m"] by simp
  have t: "take_bit 2 s = s" "take_bit 6 p = p" "take_bit 3 a = a"
    using h by (simp_all add: take_bit_int_eq_self)
  show "\<exists>x. encode (Action s p a m) = Inr x \<and> decode x = Action s p a m"
    using decode_encode_gen [OF e] e t by simp
next
  show "(\<exists>e. encode b = Inl e) \<longleftrightarrow> (a_amount b < 0 \<or> a_amount b \<ge> 2 ^ 21)"
    by (auto simp add: encode_def push_bit_eq_mult)
next
  fix e assume "encode b = Inl e"
  then show "e = EncodeRange"
    by (auto simp add: encode_def split: if_splits)
qed

theorem action_codec_roundtrip_witness:
  "(\<exists>x. encode (Action 1 1 3 30) = Inr x \<and> decode x = Action 1 1 3 30)
   \<and> (\<exists>e. encode (Action 1 1 3 2097152) = Inl e)"
  using action_codec_roundtrip [of 1 1 3 30 "Action 1 1 3 2097152"] by simp

subsection \<open>Legal actions and illegal-action errors\<close>

lemma example_state_start: "start_postflop_state [45, 22, 1] 60 970 HERO = Inr example_state"
  by (simp add: start_postflop_state_def pad_board_def ebind_def example_state_def enum_defs
      Let_def eval_nat_numeral)

lemma example_not_terminal: "\<not> is_terminal example_state"
  by (simp add: is_terminal_def example_state_def dict_get_def)

text \<open>
  C1. In a state that is not terminal, \<open>legal_actions\<close> lists, without repetition, exactly
  CHECK, BET and ALLIN when no bet is open, and exactly CALL, FOLD and ALLIN when a bet is
  open, together with RAISE if and only if \<open>raises_this_street\<close> is 0.
\<close>

theorem legal_actions_exact:
  "\<not> is_terminal ps \<Longrightarrow>
     distinct (legal_actions ps)
   \<and> (\<not> street_bet_open ps \<longrightarrow> set (legal_actions ps) = {CHECK, BET, ALLIN})
   \<and> (street_bet_open ps \<longrightarrow>
        set (legal_actions ps) =
          {CALL, FOLD, ALLIN} \<union> (if raises_this_street ps = 0 then {RAISE} else {}))
   \<and> (RAISE \<in> set (legal_actions ps) \<longleftrightarrow> street_bet_open ps \<and> raises_this_street ps = 0)"
  by (auto simp add: legal_actions_def enum_defs)

theorem legal_actions_exact_witness:
  "set (legal_actions example_state) = {CHECK, BET, ALLIN}
   \<and> set (legal_actions (example_state\<lparr>street_bet_open := True, raises_this_street := 1\<rparr>))
       = {CALL, FOLD, ALLIN}"
  using legal_actions_exact [of example_state]
    legal_actions_exact [of "example_state\<lparr>street_bet_open := True, raises_this_street := 1\<rparr>"]
  by (simp add: is_terminal_def example_state_def dict_get_def)










subsection \<open>The branches of \<open>apply_action\<close>\<close>

lemma map_of_dict_set: "map_of (dict_set d k v) = (map_of d)(k \<mapsto> v)"
  by (induction d) (auto simp add: fun_eq_iff)

lemma dict_set_not_Nil: "dict_set d k v \<noteq> []"
  by (cases d) (auto split: if_splits)

lemma dict_get_dict_set: "dict_get (dict_set d k v) k' dflt = (if k' = k then v else dict_get d k' dflt)"
  by (simp add: dict_get_def map_of_dict_set)

lemma street_closed_closed_state:
  "street g2 = street (gs ps) \<Longrightarrow> meta g2 = meta (gs ps) \<Longrightarrow> street_closed ps (closed_state g2)"
  by (simp add: street_closed_def closed_state_def advance_street_def is_terminal_def
      dict_get_dict_set dict_set_not_Nil meta_or_empty_def)

lemma apply_put_in_Inr:
  assumes "0 \<le> m" "m < 2097152"
  shows "\<exists>x. encode (Action (street g) p a m) = Inr x \<and>
     apply_put_in g p m a =
       Inr (g\<lparr>pot := pot g + m,
              hero_stack := hero_stack g + (if p = HERO then - m else 0),
              villain_stack := villain_stack g + (if p = VILLAIN then - m else 0),
              action_history := action_history g @ [x]\<rparr>)"
  using encode_Inr [of "Action (street g) p a m"] assms
  by (simp add: apply_put_in_def gs_apply_action_def ebind_def)

lemma apply_put_in_InrD:
  assumes "apply_put_in g p m a = Inr g'"
  shows "0 \<le> m \<and> m < 2097152 \<and> (\<exists>x. encode (Action (street g) p a m) = Inr x \<and>
     g' = g\<lparr>pot := pot g + m,
            hero_stack := hero_stack g + (if p = HERO then - m else 0),
            villain_stack := villain_stack g + (if p = VILLAIN then - m else 0),
            action_history := action_history g @ [x]\<rparr>)"
proof -
  have r: "0 \<le> m \<and> m < 2097152"
  proof (rule ccontr)
    assume "\<not> (0 \<le> m \<and> m < 2097152)"
    then have "encode (Action (street g) p a m) = Inl EncodeRange"
      by (intro encode_Inl) auto
    with assms show False
      by (simp add: apply_put_in_def gs_apply_action_def ebind_def)
  qed
  with apply_put_in_Inr [of m g p a] assms show ?thesis by auto
qed

lemma apply_action_CALL:
  "\<not> is_terminal ps \<Longrightarrow> street_bet_open ps \<Longrightarrow>
   apply_action ps CALL =
     ebind (apply_put_in (gs ps) (to_act (gs ps))
              (min (bet_amount ps) (stack_of (gs ps) (to_act (gs ps)))) CALL)
       (\<lambda>gs2. Inr (closed_state gs2))"
  by (simp add: apply_action_def legal_actions_def Let_def enum_defs)

lemma apply_action_CHECK:
  assumes "\<not> is_terminal ps" "\<not> street_bet_open ps"
  shows "\<exists>x. encode (Action (street (gs ps)) (to_act (gs ps)) CHECK 0) = Inr x \<and>
     apply_action ps CHECK =
       Inr (if prev_check_same_street ps
            then closed_state ((gs ps)\<lparr>action_history := action_history (gs ps) @ [x]\<rparr>)
            else \<lparr>gs = replace_to_act ((gs ps)\<lparr>action_history := action_history (gs ps) @ [x]\<rparr>)
                         (swap_player (to_act (gs ps))),
                  street_bet_open = False, bet_by = HERO, bet_amount = 0,
                  raises_this_street = 0\<rparr>)"
proof -
  let ?g = "gs ps"
  let ?h = "action_history ?g"
  let ?a = "Action (street ?g) (to_act ?g) CHECK 0"
  obtain x where x: "encode ?a = Inr x"
    using encode_Inr [of ?a] by simp
  have d: "decode x = Action (take_bit 2 (street ?g)) (take_bit 6 (to_act ?g)) CHECK 0"
    using decode_encode_gen [OF x] by (simp add: CHECK_def)
  have leg: "CHECK \<in> set (legal_actions ps)"
    using assms by (simp add: legal_actions_def)
  have "apply_action ps CHECK =
       Inr (if prev_check_same_street ps
            then closed_state (?g\<lparr>action_history := ?h @ [x]\<rparr>)
            else \<lparr>gs = replace_to_act (?g\<lparr>action_history := ?h @ [x]\<rparr>)
                         (swap_player (to_act ?g)),
                  street_bet_open = False, bet_by = HERO, bet_amount = 0,
                  raises_this_street = 0\<rparr>)"
  proof (cases "?h = []")
    case True
    then have "\<not> prev_check_same_street ps"
      by (simp add: prev_check_same_street_def)
    then show ?thesis
      using assms leg x True
      by (simp add: apply_action_def Let_def gs_apply_action_def ebind_def)
  next
    case False
    then have len: "Suc 0 \<le> length ?h"
      by (cases ?h) auto
    have nth2: "(?h @ [x]) ! (length ?h - Suc 0) = last ?h"
      using False by (simp add: nth_append last_conv_nth)
    show ?thesis
    proof (cases "prev_check_same_street ps")
      case True
      then have p: "a_act (decode (last ?h)) = CHECK" "a_street (decode (last ?h)) = street ?g"
        by (simp_all add: prev_check_same_street_def Let_def)
      have "take_bit 2 (a_street (decode (last ?h))) = a_street (decode (last ?h))"
        by (simp add: decode_def and_masks)
      then have t: "take_bit 2 (street ?g) = street ?g"
        by (simp only: p(2))
      show ?thesis
        using assms leg x d len nth2 p t True
        by (simp add: apply_action_def Let_def gs_apply_action_def ebind_def)
    next
      case np: False
      then have "\<not> (a_act (decode (last ?h)) = CHECK \<and> a_street (decode (last ?h)) = street ?g)"
        using False by (simp add: prev_check_same_street_def Let_def)
      then show ?thesis
        using assms leg x d len nth2 np
        by (auto simp add: apply_action_def Let_def gs_apply_action_def ebind_def)
    qed
  qed
  then show ?thesis using x by simp
qed





lemma apply_action_BET:
  "\<not> is_terminal ps \<Longrightarrow> \<not> street_bet_open ps \<Longrightarrow>
   apply_action ps BET =
     (let g = gs ps; p = to_act g;
          size = min (half_pot_bet_size (pot g)) (stack_of g p);
          call_amt = min size (stack_of g (swap_player p))
      in if should_shove_after_called (pot g) (hero_stack g) (villain_stack g) p size call_amt
         then ebind (apply_put_in g p (stack_of g p) ALLIN)
                (\<lambda>gs2. Inr \<lparr>gs = replace_to_act gs2 (swap_player p), street_bet_open = True,
                             bet_by = p, bet_amount = stack_of g p, raises_this_street = 0\<rparr>)
         else ebind (apply_put_in g p size BET)
                (\<lambda>gs2. Inr \<lparr>gs = replace_to_act gs2 (swap_player p), street_bet_open = True,
                             bet_by = p, bet_amount = size, raises_this_street = 0\<rparr>))"
  by (simp add: apply_action_def legal_actions_def Let_def enum_defs)


lemma ebind_Inr_iff: "ebind m f = Inr y \<longleftrightarrow> (\<exists>x. m = Inr x \<and> f x = Inr y)"
  by (cases m) (simp_all add: ebind_def)

lemma put_in_closed:
  assumes "ebind (apply_put_in (gs ps) p m a) (\<lambda>gs2. Inr (closed_state gs2)) = Inr ps'"
  shows "street_closed ps ps'"
proof -
  from assms obtain g2 where g2: "apply_put_in (gs ps) p m a = Inr g2" "ps' = closed_state g2"
    by (auto simp add: ebind_Inr_iff)
  from apply_put_in_InrD [OF g2(1)] have "street g2 = street (gs ps)" "meta g2 = meta (gs ps)"
    by auto
  then show ?thesis unfolding g2(2) by (rule street_closed_closed_state)
qed

lemma put_in_succeeds_iff:
  "(\<exists>y. ebind (apply_put_in g p m a) (\<lambda>gs2. Inr (f gs2)) = Inr y) \<longleftrightarrow> 0 \<le> m \<and> m < 2097152"
  using apply_put_in_Inr [of m g p a] apply_put_in_InrD [of g p m a]
  by (auto simp add: ebind_Inr_iff)

text \<open>
  C3. In a state that is not terminal, a CHECK made when the last recorded action is a CHECK on
  the same street, and any CALL, close the street: the street number goes up by one (from the
  river on, the showdown and terminal flags are set instead), \<open>raises_this_street\<close> is 0, no
  bet is open and the hero is to act. The CHECK always succeeds; the CALL succeeds exactly when
  the amount called fits the action codec.
\<close>

theorem street_closes_on_check_check_or_call:
  assumes "\<not> is_terminal ps"
  shows "(\<not> street_bet_open ps \<and> prev_check_same_street ps \<longrightarrow>
            (\<exists>ps'. apply_action ps CHECK = Inr ps' \<and> street_closed ps ps'))
       \<and> (street_bet_open ps \<longrightarrow>
            (\<forall>ps'. apply_action ps CALL = Inr ps' \<longrightarrow> street_closed ps ps')
          \<and> ((\<exists>ps'. apply_action ps CALL = Inr ps') \<longleftrightarrow>
               0 \<le> min (bet_amount ps) (stack_of (gs ps) (to_act (gs ps)))
             \<and> min (bet_amount ps) (stack_of (gs ps) (to_act (gs ps))) < 2 ^ 21))"
proof (intro conjI impI)
  assume h: "\<not> street_bet_open ps \<and> prev_check_same_street ps"
  with apply_action_CHECK [OF assms, of] obtain x where
    "apply_action ps CHECK =
       Inr (closed_state ((gs ps)\<lparr>action_history := action_history (gs ps) @ [x]\<rparr>))"
    by auto
  moreover have "street_closed ps (closed_state ((gs ps)\<lparr>action_history := action_history (gs ps) @ [x]\<rparr>))"
    by (rule street_closed_closed_state) simp_all
  ultimately show "\<exists>ps'. apply_action ps CHECK = Inr ps' \<and> street_closed ps ps'"
    by blast
next
  assume "street_bet_open ps"
  then show "\<forall>ps'. apply_action ps CALL = Inr ps' \<longrightarrow> street_closed ps ps'"
    using assms by (auto simp add: apply_action_CALL dest: put_in_closed)
next
  assume "street_bet_open ps"
  then show "(\<exists>ps'. apply_action ps CALL = Inr ps') \<longleftrightarrow>
               0 \<le> min (bet_amount ps) (stack_of (gs ps) (to_act (gs ps)))
             \<and> min (bet_amount ps) (stack_of (gs ps) (to_act (gs ps))) < 2 ^ 21"
    using assms by (simp add: apply_action_CALL put_in_succeeds_iff)
qed


lemma encode_example_check: "encode (Action 1 0 1 0) = Inr 1075838976"
  by (simp add: encode_def)

lemma encode_example_bet: "encode (Action 1 0 3 30) = Inr 1080033310"
  by (simp add: encode_def)

lemma example_check: "apply_action example_state CHECK = Inr example_after_check"
  using apply_action_CHECK [OF example_not_terminal]
  by (simp add: example_state_def example_after_check_def prev_check_same_street_def
      replace_to_act_def swap_player_def enum_defs encode_example_check)

lemma example_bet: "apply_action example_state BET = Inr example_after_bet"
  using apply_action_BET [OF example_not_terminal]
  by (simp add: example_state_def example_after_bet_def Let_def half_pot_bet_size_def
      stack_of_def swap_player_def should_shove_after_called_def apply_put_in_def
      gs_apply_action_def ebind_def replace_to_act_def enum_defs encode_example_bet)

lemma example_after_check_facts:
  "\<not> is_terminal example_after_check" "\<not> street_bet_open example_after_check"
  "prev_check_same_street example_after_check"
  by (simp_all add: is_terminal_def example_after_check_def dict_get_def
      prev_check_same_street_def decode_def enum_defs)

lemma example_after_bet_facts:
  "\<not> is_terminal example_after_bet" "street_bet_open example_after_bet"
  "raises_this_street example_after_bet = 0"
  "bet_amount example_after_bet = 30"
  "stack_of (gs example_after_bet) (to_act (gs example_after_bet)) = 940"
  by (simp_all add: is_terminal_def example_after_bet_def dict_get_def stack_of_def enum_defs)

theorem street_closes_on_check_check_or_call_witness:
  "(\<exists>ps'. apply_action example_after_check CHECK = Inr ps'
          \<and> street_closed example_after_check ps')
   \<and> (\<exists>ps'. apply_action example_after_bet CALL = Inr ps'
          \<and> street_closed example_after_bet ps')"
  using street_closes_on_check_check_or_call [OF example_after_check_facts(1)]
    street_closes_on_check_check_or_call [OF example_after_bet_facts(1)]
  by (auto simp add: example_after_check_facts example_after_bet_facts)

subsection \<open>All-in facing a bet\<close>








subsection \<open>Bet and raise sizes, and the automatic shove\<close>











subsection \<open>Conservation of chips and the zero-sum payout\<close>






























subsection \<open>The rollout cache\<close>
























lemma lru_init_ok: "lru_init cap = Inr t \<Longrightarrow> table_ok t \<and> od t = []"
  by (auto simp add: lru_init_def table_ok_def split: if_splits)























subsection \<open>UCB selection\<close>

lemma na_ensure:
  "na (ensure_actions node acts) a
     = (if a \<in> set acts \<and> na node a = None then Some 0 else na node a)"
  by (induction acts arbitrary: node) auto

lemma wa_ensure:
  "wa (ensure_actions node acts) a
     = (if a \<in> set acts \<and> na node a = None then Some 0 else wa node a)"
  by (induction acts arbitrary: node) auto

lemma node_n_ensure: "node_n (ensure_actions node acts) = node_n node"
  by (induction acts arbitrary: node) auto

lemma ensure_present:
  "\<forall>a \<in> set acts. na node a \<noteq> None \<Longrightarrow> ensure_actions node acts = node"
  by (induction acts arbitrary: node) auto


lemma ucb_scan_spec:
  assumes "\<forall>a \<in> set acts. (\<exists>m. na node a = Some m \<and> 0 < m) \<and> wa node a \<noteq> None"
  shows "\<exists>b' s'. ucb_scan node c (ln (real (node_n node) + 1)) acts b s = Inr (b', s')
           \<and> s \<le> s'
           \<and> (\<forall>a \<in> set acts. ucb_score node c a \<le> s')
           \<and> ((b' = b \<and> s' = s)
               \<or> (\<exists>a \<in> set acts. b' = Some a \<and> s' = ucb_score node c a \<and> s < s'))"
  using assms
proof (induction acts arbitrary: b s)
  case Nil
  then show ?case by simp
next
  case (Cons a acts)
  from Cons.prems obtain m w where m: "na node a = Some m" "0 < m" and w: "wa node a = Some w"
    by auto
  have rest: "\<forall>a \<in> set acts. (\<exists>m. na node a = Some m \<and> 0 < m) \<and> wa node a \<noteq> None"
    using Cons.prems by simp
  have l: "\<not> ln (real (node_n node) + 1) / real m < 0"
    using m(2) by (simp add: divide_less_0_iff not_less)
  have sc: "ucb_score node c a = w / real m + c * sqrt (ln (real (node_n node) + 1) / real m)"
    by (simp add: ucb_score_def m w)
  show ?case
  proof (cases "ucb_score node c a > s")
    case True
    from Cons.IH [OF rest, of "Some a" "ucb_score node c a"] obtain b' s' where
      r: "ucb_scan node c (ln (real (node_n node) + 1)) acts (Some a) (ucb_score node c a)
            = Inr (b', s')"
        "ucb_score node c a \<le> s'" "\<forall>x \<in> set acts. ucb_score node c x \<le> s'"
        "(b' = Some a \<and> s' = ucb_score node c a)
         \<or> (\<exists>x \<in> set acts. b' = Some x \<and> s' = ucb_score node c x \<and> ucb_score node c a < s')"
      by blast
    have e: "ucb_scan node c (ln (real (node_n node) + 1)) (a # acts) b s = Inr (b', s')"
      using True r(1) l by (simp add: m w Let_def sc [symmetric])
    show ?thesis
      using e r(2,3,4) True by (intro exI [of _ b'] exI [of _ s']) auto
  next
    case False
    from Cons.IH [OF rest, of b s] obtain b' s' where
      r: "ucb_scan node c (ln (real (node_n node) + 1)) acts b s = Inr (b', s')"
        "s \<le> s'" "\<forall>x \<in> set acts. ucb_score node c x \<le> s'"
        "(b' = b \<and> s' = s)
         \<or> (\<exists>x \<in> set acts. b' = Some x \<and> s' = ucb_score node c x \<and> s < s')"
      by blast
    have e: "ucb_scan node c (ln (real (node_n node) + 1)) (a # acts) b s = Inr (b', s')"
      using False r(1) l by (simp add: m w Let_def sc [symmetric])
    show ?thesis
      using e r(2,3,4) False by (intro exI [of _ b'] exI [of _ s']) auto
  qed
qed

lemma find_unvisited_None:
  "all_visited node acts \<Longrightarrow> find (\<lambda>a. na node a = Some 0) acts = None"
  by (auto simp add: all_visited_def find_None_iff)

lemma all_visited_ensure: "all_visited node acts \<Longrightarrow> ensure_actions node acts = node"
  by (rule ensure_present) (auto simp add: all_visited_def)

lemma ucb_select_visited:
  assumes "all_visited node acts"
  shows "(\<forall>a. ucb_select_action node acts c = Inr (a, node') \<longrightarrow>
            node' = node \<and> a \<in> set acts \<and> (\<forall>b \<in> set acts. ucb_score node c b \<le> ucb_score node c a))
       \<and> ((\<exists>a. ucb_select_action node acts c = Inr (a, node))
            \<longleftrightarrow> (\<exists>b \<in> set acts. - (10 ^ 100) < ucb_score node c b))
       \<and> (\<forall>e. ucb_select_action node acts c = Inl e \<longrightarrow> e = AssertionError)"
proof -
  from assms have v: "\<forall>a \<in> set acts. (\<exists>m. na node a = Some m \<and> 0 < m) \<and> wa node a \<noteq> None"
    by (simp add: all_visited_def)
  from ucb_scan_spec [OF v, of c None "- (10 ^ 100)"] obtain b' s' where
    r: "ucb_scan node c (ln (real (node_n node) + 1)) acts None (- (10 ^ 100)) = Inr (b', s')"
      "- (10 ^ 100) \<le> s'" "\<forall>x \<in> set acts. ucb_score node c x \<le> s'"
      "(b' = None \<and> s' = - (10 ^ 100))
         \<or> (\<exists>x \<in> set acts. b' = Some x \<and> s' = ucb_score node c x \<and> - (10 ^ 100) < s')"
    by blast
  have sel: "ucb_select_action node acts c
      = (case b' of None \<Rightarrow> Inl AssertionError | Some a \<Rightarrow> Inr (a, node))"
    unfolding ucb_select_action_def Let_def all_visited_ensure [OF assms]
      find_unvisited_None [OF assms] r(1)
    by (simp add: ebind_def split: option.splits)
  show ?thesis
  proof (cases b')
    case None
    then have "s' = - (10 ^ 100)" using r(4) by auto
    then have "\<not> (\<exists>b \<in> set acts. - (10 ^ 100) < ucb_score node c b)"
      using r(3) by (auto simp add: not_less)
    then show ?thesis
      using None sel by simp
  next
    case (Some a)
    then have a: "a \<in> set acts" "s' = ucb_score node c a" "- (10 ^ 100) < s'"
      using r(4) by auto
    then show ?thesis
      using Some sel r(3) by auto
  qed
qed


lemma ucb_select_first_unvisited:
  assumes "find (\<lambda>a. na (ensure_actions node acts) a = Some 0) acts = Some a"
  shows "ucb_select_action node acts c = Inr (a, ensure_actions node acts)"
  using assms by (simp add: ucb_select_action_def Let_def)

lemma ucb_select_unvisited:
  assumes "\<exists>a \<in> set acts. na node a = None \<or> na node a = Some 0"
  shows "\<exists>a. ucb_select_action node acts c = Inr (a, ensure_actions node acts)
            \<and> a \<in> set acts \<and> (na node a = None \<or> na node a = Some 0)"
proof -
  from assms obtain x where "x \<in> set acts" "na node x = None \<or> na node x = Some 0"
    by blast
  then have "na (ensure_actions node acts) x = Some 0"
    by (auto simp add: na_ensure)
  with \<open>x \<in> set acts\<close> have "\<exists>a \<in> set acts. na (ensure_actions node acts) a = Some 0"
    by blast
  then obtain a where f: "find (\<lambda>a. na (ensure_actions node acts) a = Some 0) acts = Some a"
    by (cases "find (\<lambda>a. na (ensure_actions node acts) a = Some 0) acts")
      (auto simp add: find_None_iff)
  then have "a \<in> set acts" "na (ensure_actions node acts) a = Some 0"
    by (auto simp add: find_Some_iff)
  then have "na node a = None \<or> na node a = Some 0"
    by (auto simp add: na_ensure split: if_splits)
  with ucb_select_first_unvisited [OF f] \<open>a \<in> set acts\<close> show ?thesis
    by blast
qed

lemma find_after_visited:
  assumes "\<forall>x \<in> set done. \<not> P x" "P a"
  shows "find P (done @ a # rest) = Some a"
  using assms by (induction "done") auto

lemma select_run_sweep:
  assumes "distinct (done @ rest)" "all_visited node done" "all_unvisited node rest"
    and "length vs = length rest"
  shows "\<exists>node'. select_run node (done @ rest) c vs = Inr (rest, node')
              \<and> all_visited node' (done @ rest)"
  using assms
proof (induction rest arbitrary: "done" node vs)
  case Nil
  then show ?case by simp
next
  case (Cons a rest)
  from Cons.prems(4) obtain v vs' where vs: "vs = v # vs'" "length vs' = length rest"
    by (cases vs) auto
  let ?acts = "done @ a # rest"
  let ?n1 = "ensure_actions node ?acts"
  have a_un: "na node a = None \<or> (na node a = Some 0 \<and> wa node a \<noteq> None)"
    using Cons.prems(3) by (simp add: all_unvisited_def)
  have na_a: "na ?n1 a = Some 0"
    using a_un by (auto simp add: na_ensure)
  have wa_a: "wa ?n1 a \<noteq> None"
    using a_un by (auto simp add: wa_ensure)
  have done_vis: "\<forall>x \<in> set done. \<not> na ?n1 x = Some 0"
    using Cons.prems(2) by (auto simp add: all_visited_def na_ensure)
  have sel: "ucb_select_action node ?acts c = Inr (a, ?n1)"
    by (rule ucb_select_first_unvisited) (rule find_after_visited [OF done_vis na_a])
  from wa_a obtain w where w: "wa ?n1 a = Some w" by auto
  let ?n2 = "?n1\<lparr>node_n := node_n ?n1 + 1, na := (na ?n1)(a \<mapsto> 0 + 1),
                     wa := (wa ?n1)(a \<mapsto> w + v)\<rparr>"
  have rec: "record_visit ?n1 a v = Inr ?n2"
    by (simp add: record_visit_def na_a w)
  have d': "distinct ((done @ [a]) @ rest)"
    using Cons.prems(1) by simp
  have v': "all_visited ?n2 (done @ [a])"
    using Cons.prems(1,2) by (auto simp add: all_visited_def na_ensure wa_ensure)
  have u': "all_unvisited ?n2 rest"
    using Cons.prems(1,3) by (auto simp add: all_unvisited_def na_ensure wa_ensure)
  from Cons.IH [OF d' v' u' vs(2)] obtain node' where
    r: "select_run ?n2 ((done @ [a]) @ rest) c vs' = Inr (rest, node')"
      "all_visited node' ((done @ [a]) @ rest)"
    by blast
  have "select_run node ?acts c vs = Inr (a # rest, node')"
    using r(1) by (simp add: vs sel rec ebind_def)
  then show ?case
    using r(2) by simp
qed

text \<open>
  C6. While some action of the list has no visit, \<open>ucb_select_action\<close> returns an action
  without visits (the first one). Hence, from a node in which none of \<open>k\<close> distinct actions
  is visited, \<open>k\<close> selections, each followed by the statistics update, choose the \<open>k\<close>
  actions, each exactly once, and leave all of them visited. Once all actions are visited,
  whatever it returns is an action of the list whose score, mean return plus \<open>exploration_c\<close>
  times \<open>sqrt (ln (N + 1) / n_a)\<close>, is maximal; it returns one exactly when some score is
  above the initial best score \<open>-1e100\<close>, and fails its own assertion otherwise.
\<close>

theorem ucb_selection:
  "((\<exists>a \<in> set acts. na node a = None \<or> na node a = Some 0) \<longrightarrow>
      (\<exists>a. ucb_select_action node acts c = Inr (a, ensure_actions node acts)
          \<and> a \<in> set acts \<and> (na node a = None \<or> na node a = Some 0)))
   \<and> (distinct acts \<and> all_unvisited node acts \<and> length vs = length acts \<longrightarrow>
      (\<exists>node'. select_run node acts c vs = Inr (acts, node') \<and> all_visited node' acts))
   \<and> (all_visited node acts \<longrightarrow>
        (\<forall>a node'. ucb_select_action node acts c = Inr (a, node') \<longrightarrow>
            node' = node \<and> a \<in> set acts
          \<and> (\<forall>b \<in> set acts. ucb_score node c b \<le> ucb_score node c a))
      \<and> ((\<exists>a. ucb_select_action node acts c = Inr (a, node))
            \<longleftrightarrow> (\<exists>b \<in> set acts. - (10 ^ 100) < ucb_score node c b))
      \<and> (\<forall>e. ucb_select_action node acts c = Inl e \<longrightarrow> e = AssertionError))"
proof (intro conjI impI)
  assume "\<exists>a \<in> set acts. na node a = None \<or> na node a = Some 0"
  then show "\<exists>a. ucb_select_action node acts c = Inr (a, ensure_actions node acts)
          \<and> a \<in> set acts \<and> (na node a = None \<or> na node a = Some 0)"
    by (rule ucb_select_unvisited)
next
  assume a: "distinct acts \<and> all_unvisited node acts \<and> length vs = length acts"
  have "all_visited node []"
    by (simp add: all_visited_def)
  from select_run_sweep [of "[]" acts node vs c, OF _ this] a
  show "\<exists>node'. select_run node acts c vs = Inr (acts, node') \<and> all_visited node' acts"
    by simp
next
  assume v: "all_visited node acts"
  show "\<forall>a node'. ucb_select_action node acts c = Inr (a, node') \<longrightarrow>
            node' = node \<and> a \<in> set acts
          \<and> (\<forall>b \<in> set acts. ucb_score node c b \<le> ucb_score node c a)"
    using ucb_select_visited [OF v] by blast
  show "(\<exists>a. ucb_select_action node acts c = Inr (a, node))
            \<longleftrightarrow> (\<exists>b \<in> set acts. - (10 ^ 100) < ucb_score node c b)"
    using ucb_select_visited [OF v, of c node] by blast
  show "\<forall>e. ucb_select_action node acts c = Inl e \<longrightarrow> e = AssertionError"
    using ucb_select_visited [OF v, of c node] by blast
qed

lemma new_node_unvisited: "all_unvisited new_node acts"
  by (simp add: all_unvisited_def new_node_def)

lemma example_node_visited: "all_visited example_node [1, 3]"
  by (simp add: all_visited_def example_node_def)

lemma example_node_scores:
  "ucb_score example_node 0 1 = 5" "ucb_score example_node 0 3 = 2"
  by (simp_all add: ucb_score_def example_node_def)

theorem ucb_selection_witness:
  "(\<exists>node'. select_run new_node [1, 3, 5] (14 / 10) [1, 0, - 1] = Inr ([1, 3, 5], node'))
   \<and> ucb_select_action example_node [1, 3] 0 = Inr (1, example_node)"
proof
  note t = ucb_selection [of "[1, 3, 5]" new_node "14 / 10" "[1, 0, - 1]",
      THEN conjunct2, THEN conjunct1]
  show "\<exists>node'. select_run new_node [1, 3, 5] (14 / 10) [1, 0, - 1] = Inr ([1, 3, 5], node')"
    using t new_node_unvisited [of "[1, 3, 5]"] by auto
next
  note t = ucb_selection [of "[1, 3]" example_node 0, THEN conjunct2, THEN conjunct2,
      rule_format, OF example_node_visited]
  have "\<exists>a. ucb_select_action example_node [1, 3] 0 = Inr (a, example_node)"
    using t [THEN conjunct2, THEN conjunct1] by (simp add: example_node_scores)
  then obtain a where a: "ucb_select_action example_node [1, 3] 0 = Inr (a, example_node)" ..
  from t [THEN conjunct1, rule_format, OF a] have "a = 1"
    by (auto simp add: example_node_scores)
  with a show "ucb_select_action example_node [1, 3] 0 = Inr (1, example_node)"
    by simp
qed

subsection \<open>Opponent range from the history\<close>


































end
